theory Spec2Isabelle
  imports Complex_Main
begin

section \<open>The compound-interest calculator (streamlit\_compound\_calculator.py)\<close>

text \<open>
  The script is a straight-line Streamlit page: it reads five inputs from sidebar
  widgets, computes a month-by-month table (lines 88--111) and, when a positive target
  is entered, the monthly contribution that reaches it (lines 147--166).

  Modelling conventions.
  \<^item> Python floats are real numbers. The definitions of lines 88--166 compute with exact
    arithmetic: they give the arithmetic the script writes down. Where a statement
    depends on what double precision does to that arithmetic, two further definitions
    say so: \<open>PMT_py\<close> adds the range of the power of line 154 (Python raises
    \<open>OverflowError\<close> beyond it), and \<open>passo_f64\<close> rounds every operation of the loop to
    the nearest double.
  \<^item> Python integers (\<open>anos\<close>, \<open>meses\<close>, the loop counter \<open>m\<close>) are \<open>int\<close>.
  \<^item> The lists filled by the loop are the fields of a record that the loop passes along.
  \<^item> A raised exception is a value \<open>Inl e\<close>; the two Streamlit outputs of the
    reverse calculator are the constructors of a datatype.
\<close>

subsection \<open>Lines 88--90: horizon in months and monthly-equivalent rates\<close>

definition meses :: "int \<Rightarrow> int" where
  "meses anos = anos * 12"

text \<open>
  \<open>(1 + taxa_anual/100) ** (1/12) - 1\<close>. For a negative base Python's \<open>**\<close> with a
  fractional exponent leaves the floats (the result is a complex number); the model
  returns \<open>None\<close> there and does not follow the script further. A base of zero gives
  zero, in Python as for \<open>powr\<close>.
\<close>

definition taxa_mensal :: "real \<Rightarrow> real option" where
  "taxa_mensal taxa_anual =
     (if 0 \<le> 1 + taxa_anual / 100
      then Some ((1 + taxa_anual / 100) powr (1 / 12) - 1)
      else None)"

subsection \<open>Lines 92--103: the accumulation loop\<close>

record estado =
  saldos :: "real list"
  aportes :: "real list"
  ganhos :: "real list"
  cdi_ref :: "real list"
  saldo :: real
  saldo_cdi :: real

text \<open>Lines 92--94: four empty lists, both running balances at the initial value.\<close>

definition inicio :: "real \<Rightarrow> estado" where
  "inicio valor_inicial =
     \<lparr>saldos = [], aportes = [], ganhos = [], cdi_ref = [],
      saldo = valor_inicial, saldo_cdi = valor_inicial\<rparr>"

text \<open>
  Lines 97--103, the body of the loop for month \<open>m\<close>: the four appends, then the two
  updates guarded by \<open>m < meses\<close>. The parameters \<open>taxa\<close> and \<open>cdi\<close> are the script's
  \<open>taxa_mensal\<close> and \<open>cdi_mensal\<close>.
\<close>

definition passo :: "real \<Rightarrow> real \<Rightarrow> real \<Rightarrow> real \<Rightarrow> int \<Rightarrow> int \<Rightarrow> estado \<Rightarrow> estado" where
  "passo valor_inicial aporte_mensal taxa cdi n m s =
     (let s1 = s\<lparr>saldos := saldos s @ [saldo s],
                 aportes := aportes s @ [valor_inicial + aporte_mensal * of_int m],
                 ganhos := ganhos s @ [saldo s - (valor_inicial + aporte_mensal * of_int m)],
                 cdi_ref := cdi_ref s @ [saldo_cdi s]\<rparr>
      in if m < n
         then s1\<lparr>saldo := saldo s1 * (1 + taxa) + aporte_mensal,
                 saldo_cdi := saldo_cdi s1 * (1 + cdi) + aporte_mensal\<rparr>
         else s1)"

text \<open>The \<open>for\<close> loop over a list of months.\<close>

fun laco :: "real \<Rightarrow> real \<Rightarrow> real \<Rightarrow> real \<Rightarrow> int \<Rightarrow> int list \<Rightarrow> estado \<Rightarrow> estado" where
  "laco valor_inicial aporte_mensal taxa cdi n [] s = s"
| "laco valor_inicial aporte_mensal taxa cdi n (m # ms) s =
     laco valor_inicial aporte_mensal taxa cdi n ms
       (passo valor_inicial aporte_mensal taxa cdi n m s)"

subsection \<open>Lines 105--111: the table\<close>

record tabela =
  Mes :: "int list"
  Saldo_acumulado :: "real list"
  Total_aportado :: "real list"
  Ganhos :: "real list"
  Saldo_CDI :: "real list"

text \<open>
  \<open>range(meses+1)\<close> is the list \<open>[0..n]\<close>, empty when \<open>n\<close> is negative. The data frame
  takes the month numbers and the four lists as its columns.
\<close>

definition projecao :: "real \<Rightarrow> real \<Rightarrow> real \<Rightarrow> real \<Rightarrow> int \<Rightarrow> tabela" where
  "projecao valor_inicial aporte_mensal taxa cdi n =
     (let s = laco valor_inicial aporte_mensal taxa cdi n [0..n] (inicio valor_inicial)
      in \<lparr>Mes = [0..n], Saldo_acumulado = saldos s, Total_aportado = aportes s,
          Ganhos = ganhos s, Saldo_CDI = cdi_ref s\<rparr>)"

text \<open>Lines 89--111 together, from the annual rates (in percent) and the horizon in months.\<close>

definition calculo :: "real \<Rightarrow> real \<Rightarrow> real \<Rightarrow> real \<Rightarrow> int \<Rightarrow> tabela option" where
  "calculo valor_inicial aporte_mensal taxa_anual cdi_medio n =
     (case taxa_mensal taxa_anual of
        None \<Rightarrow> None
      | Some taxa \<Rightarrow>
          (case taxa_mensal cdi_medio of
             None \<Rightarrow> None
           | Some cdi \<Rightarrow> Some (projecao valor_inicial aporte_mensal taxa cdi n)))"

subsection \<open>Lines 147--166: the reverse calculator\<close>

datatype py_error = ZeroDivisionError | OverflowError





subsection \<open>Line 154 with the range of double precision\<close>

text \<open>The largest finite double, \<open>(2 - 2\<^sup>-\<^sup>5\<^sup>2) * 2\<^sup>1\<^sup>0\<^sup>2\<^sup>3\<close>.\<close>

definition maior_double :: real where
  "maior_double = (2 - 2 powi (- 52)) * 2 ^ 1023"

text \<open>
  Python's \<open>x ** n\<close> for a float \<open>x\<close> and an integer \<open>n\<close>: \<open>ZeroDivisionError\<close> for zero
  to a negative power, \<open>OverflowError\<close> when the result is beyond the largest double.
  The value itself is not rounded here.
\<close>

definition potencia :: "real \<Rightarrow> int \<Rightarrow> py_error + real" where
  "potencia x n =
     (if x = 0 \<and> n < 0 then Inl ZeroDivisionError
      else if maior_double < \<bar>x powi n\<bar> then Inl OverflowError
      else Inr (x powi n))"

text \<open>Lines 153--156 again, with the power of line 154 raising as Python's does.\<close>

definition PMT_py :: "real \<Rightarrow> real \<Rightarrow> real \<Rightarrow> int \<Rightarrow> py_error + real" where
  "PMT_py FV P i n =
     (if i > 0
      then (case potencia (1 + i) n of
              Inl e \<Rightarrow> Inl e
            | Inr p \<Rightarrow>
                if (p - 1) / i = 0 then Inl ZeroDivisionError
                else Inr ((FV - P * p) / ((p - 1) / i)))
      else (if n = 0 then Inl ZeroDivisionError
            else Inr ((FV - P) / of_int n)))"

subsection \<open>Lines 92--103 with every operation rounded to a double\<close>

text \<open>Rounding to the nearest integer, a tie going to the even one.\<close>

definition rne :: "real \<Rightarrow> int" where
  "rne x =
     (let f = \<lfloor>x\<rfloor>; d = x - of_int f
      in if d < 1 / 2 then f else if 1 / 2 < d then f + 1 else if even f then f else f + 1)"

text \<open>The binary exponent of a non-zero number: \<open>2\<^sup>e \<le> |x| < 2\<^sup>e\<^sup>+\<^sup>1\<close>.\<close>

definition expoente :: "real \<Rightarrow> int" where
  "expoente x = \<lfloor>log 2 \<bar>x\<bar>\<rfloor>"

text \<open>
  Rounding to 53 significant bits, to nearest with ties to even, as every float
  operation of the script does. The exponent is not bounded here: \<open>arred\<close> is what the
  hardware returns whenever the result is within the range of double precision (beyond
  the largest double the hardware returns an infinity, which the reals do not have).
\<close>

definition arred :: "real \<Rightarrow> real" where
  "arred x =
     (if x = 0 then 0
      else of_int (rne (x / 2 powi (expoente x - 52))) * 2 powi (expoente x - 52))"

text \<open>
  The finite doubles: 53 significant bits, at most the largest double, a multiple of
  the smallest subnormal \<open>2\<^sup>-\<^sup>1\<^sup>0\<^sup>7\<^sup>4\<close>.
\<close>

definition duplo :: "real \<Rightarrow> bool" where
  "duplo x \<longleftrightarrow>
     arred x = x \<and> \<bar>x\<bar> \<le> maior_double \<and>
     x / 2 powi (- 1074) = of_int \<lfloor>x / 2 powi (- 1074)\<rfloor>"

definition soma :: "real \<Rightarrow> real \<Rightarrow> real" where
  "soma x y = arred (x + y)"

definition subtracao :: "real \<Rightarrow> real \<Rightarrow> real" where
  "subtracao x y = arred (x - y)"

definition produto :: "real \<Rightarrow> real \<Rightarrow> real" where
  "produto x y = arred (x * y)"

text \<open>Lines 97--103 with the float operations written out.\<close>

definition passo_f64 :: "real \<Rightarrow> real \<Rightarrow> real \<Rightarrow> real \<Rightarrow> int \<Rightarrow> int \<Rightarrow> estado \<Rightarrow> estado" where
  "passo_f64 valor_inicial aporte_mensal taxa cdi n m s =
     (let s1 = s\<lparr>saldos := saldos s @ [saldo s],
                 aportes := aportes s @ [soma valor_inicial (produto aporte_mensal (of_int m))],
                 ganhos := ganhos s @
                   [subtracao (saldo s) (soma valor_inicial (produto aporte_mensal (of_int m)))],
                 cdi_ref := cdi_ref s @ [saldo_cdi s]\<rparr>
      in if m < n
         then s1\<lparr>saldo := soma (produto (saldo s1) (soma 1 taxa)) aporte_mensal,
                 saldo_cdi := soma (produto (saldo_cdi s1) (soma 1 cdi)) aporte_mensal\<rparr>
         else s1)"

fun laco_f64 :: "real \<Rightarrow> real \<Rightarrow> real \<Rightarrow> real \<Rightarrow> int \<Rightarrow> int list \<Rightarrow> estado \<Rightarrow> estado" where
  "laco_f64 valor_inicial aporte_mensal taxa cdi n [] s = s"
| "laco_f64 valor_inicial aporte_mensal taxa cdi n (m # ms) s =
     laco_f64 valor_inicial aporte_mensal taxa cdi n ms
       (passo_f64 valor_inicial aporte_mensal taxa cdi n m s)"

definition projecao_f64 :: "real \<Rightarrow> real \<Rightarrow> real \<Rightarrow> real \<Rightarrow> int \<Rightarrow> tabela" where
  "projecao_f64 valor_inicial aporte_mensal taxa cdi n =
     (let s = laco_f64 valor_inicial aporte_mensal taxa cdi n [0..n] (inicio valor_inicial)
      in \<lparr>Mes = [0..n], Saldo_acumulado = saldos s, Total_aportado = aportes s,
          Ganhos = ganhos s, Saldo_CDI = cdi_ref s\<rparr>)"

section \<open>The loop in closed form\<close>

text \<open>
  The balance after \<open>k\<close> applications of line 102 (or 103), used to describe the lists
  the loop builds.
\<close>

fun acumulado :: "real \<Rightarrow> real \<Rightarrow> real \<Rightarrow> nat \<Rightarrow> real" where
  "acumulado v a r 0 = v"
| "acumulado v a r (Suc k) = acumulado v a r k * (1 + r) + a"

text \<open>The same with the rounded operations of \<open>passo_f64\<close>.\<close>

fun acumulado_f64 :: "real \<Rightarrow> real \<Rightarrow> real \<Rightarrow> nat \<Rightarrow> real" where
  "acumulado_f64 v a r 0 = v"
| "acumulado_f64 v a r (Suc k) = soma (produto (acumulado_f64 v a r k) (soma 1 r)) a"

lemma laco_append:
  "laco v a r c n (xs @ ys) s = laco v a r c n ys (laco v a r c n xs s)"
  by (induction xs arbitrary: s) simp_all

text \<open>
  After the months \<open>0..k\<close> of a horizon \<open>n \<ge> k\<close> the four lists hold \<open>k + 1\<close>
  entries each; the running balances are one step ahead unless \<open>k\<close> is the last month.
\<close>

lemma laco_upto:
  "int k \<le> n \<Longrightarrow>
   laco v a r c n [0..int k] (inicio v) =
     \<lparr>saldos = map (acumulado v a r) [0..<Suc k],
      aportes = map (\<lambda>m. v + a * real m) [0..<Suc k],
      ganhos = map (\<lambda>m. acumulado v a r m - (v + a * real m)) [0..<Suc k],
      cdi_ref = map (acumulado v a c) [0..<Suc k],
      saldo = acumulado v a r (if int k < n then Suc k else k),
      saldo_cdi = acumulado v a c (if int k < n then Suc k else k)\<rparr>"
proof (induction k)
  case 0
  then show ?case
    by (simp add: inicio_def passo_def Let_def)
next
  case (Suc k)
  have split: "[0..int (Suc k)] = [0..int k] @ [int (Suc k)]"
    using upto_rec2 [of 0 "int (Suc k)"] by simp
  from Suc.prems have lt: "int k < n" and le: "int k \<le> n" by simp_all
  show ?case
    unfolding split laco_append Suc.IH [OF le]
    using lt by (simp add: passo_def Let_def)
qed

lemma upto_as_upt: "[0..int k] = map int [0..<Suc k]"
proof (induction k)
  case 0
  show ?case by simp
next
  case (Suc k)
  have "[0..int (Suc k)] = [0..int k] @ [int (Suc k)]"
    using upto_rec2 [of 0 "int (Suc k)"] by simp
  with Suc show ?case by simp
qed

lemma projecao_closed:
  assumes "0 \<le> n"
  shows "projecao v a r c n =
     \<lparr>Mes = map int [0..<Suc (nat n)],
      Saldo_acumulado = map (acumulado v a r) [0..<Suc (nat n)],
      Total_aportado = map (\<lambda>m. v + a * real m) [0..<Suc (nat n)],
      Ganhos = map (\<lambda>m. acumulado v a r m - (v + a * real m)) [0..<Suc (nat n)],
      Saldo_CDI = map (acumulado v a c) [0..<Suc (nat n)]\<rparr>"
proof -
  from assms have n: "n = int (nat n)" by simp
  have "laco v a r c n [0..n] (inicio v) = laco v a r c n [0..int (nat n)] (inicio v)"
    using n by simp
  also have "\<dots> = \<lparr>saldos = map (acumulado v a r) [0..<Suc (nat n)],
      aportes = map (\<lambda>m. v + a * real m) [0..<Suc (nat n)],
      ganhos = map (\<lambda>m. acumulado v a r m - (v + a * real m)) [0..<Suc (nat n)],
      cdi_ref = map (acumulado v a c) [0..<Suc (nat n)],
      saldo = acumulado v a r (nat n),
      saldo_cdi = acumulado v a c (nat n)\<rparr>"
    using laco_upto [of "nat n" n v a r c] assms by simp
  finally have l: "laco v a r c n [0..n] (inicio v) = \<lparr>saldos = map (acumulado v a r) [0..<Suc (nat n)],
      aportes = map (\<lambda>m. v + a * real m) [0..<Suc (nat n)],
      ganhos = map (\<lambda>m. acumulado v a r m - (v + a * real m)) [0..<Suc (nat n)],
      cdi_ref = map (acumulado v a c) [0..<Suc (nat n)],
      saldo = acumulado v a r (nat n),
      saldo_cdi = acumulado v a c (nat n)\<rparr>" .
  have u: "[0..n] = map int [0..<Suc (nat n)]"
    using upto_as_upt [of "nat n"] assms by simp
  have "projecao v a r c n =
      \<lparr>Mes = [0..n],
       Saldo_acumulado = map (acumulado v a r) [0..<Suc (nat n)],
       Total_aportado = map (\<lambda>m. v + a * real m) [0..<Suc (nat n)],
       Ganhos = map (\<lambda>m. acumulado v a r m - (v + a * real m)) [0..<Suc (nat n)],
       Saldo_CDI = map (acumulado v a c) [0..<Suc (nat n)]\<rparr>"
    by (simp only: projecao_def Let_def l estado.select_convs)
  then show ?thesis by (simp only: u)
qed

lemma projecao_negative:
  "n < 0 \<Longrightarrow> projecao v a r c n =
     \<lparr>Mes = [], Saldo_acumulado = [], Total_aportado = [], Ganhos = [], Saldo_CDI = []\<rparr>"
  by (simp add: projecao_def inicio_def)

lemma calculo_Some:
  "0 \<le> 1 + ta / 100 \<Longrightarrow> 0 \<le> 1 + cm / 100 \<Longrightarrow>
   calculo v a ta cm n =
     Some (projecao v a ((1 + ta / 100) powr (1 / 12) - 1) ((1 + cm / 100) powr (1 / 12) - 1) n)"
  by (simp add: calculo_def taxa_mensal_def)

section \<open>The monthly rate\<close>

lemma taxa_mensal_valid:
  assumes "0 \<le> ta"
  shows "taxa_mensal ta = Some ((1 + ta / 100) powr (1 / 12) - 1)"
    and "0 \<le> (1 + ta / 100) powr (1 / 12) - 1"
proof -
  from assms have b: "1 \<le> 1 + ta / 100" by simp
  then show "taxa_mensal ta = Some ((1 + ta / 100) powr (1 / 12) - 1)"
    by (simp add: taxa_mensal_def)
  from b have "1 \<le> (1 + ta / 100) powr (1 / 12)"
    by (rule ge_one_powr_ge_zero) simp
  then show "0 \<le> (1 + ta / 100) powr (1 / 12) - 1" by simp
qed

lemma taxa_mensal_compounds:
  fixes ta :: real
  assumes "0 \<le> 1 + ta / 100"
  shows "(1 + ((1 + ta / 100) powr (1 / 12) - 1)) ^ 12 = 1 + ta / 100"
proof (cases "1 + ta / 100 = 0")
  case True
  then show ?thesis by simp
next
  case False
  with assms have pos: "0 < 1 + ta / 100" by simp
  have "((1 + ta / 100) powr (1 / 12)) ^ 12 = (1 + ta / 100) powr ((1 / 12) * real (12::nat))"
    by (simp only: powr_powr powr_realpow [symmetric, OF powr_gt_zero [THEN iffD2, OF False]])
  then show ?thesis using pos by simp
qed

lemma taxa_mensal_root:
  fixes ta :: real
  assumes "0 \<le> 1 + ta / 100"
  shows "(1 + ta / 100) powr (1 / 12) = root 12 (1 + ta / 100)"
proof (cases "1 + ta / 100 = 0")
  case True
  then show ?thesis by simp
next
  case False
  with assms have pos: "0 < 1 + ta / 100" by simp
  show ?thesis using root_powr_inverse [of 12 "1 + ta / 100"] pos by simp
qed

section \<open>Properties of the recurrence\<close>



lemma power_gt_one:
  assumes "0 < (i::real)" "0 < k"
  shows "1 < (1 + i) ^ k"
  using assms by (simp add: one_less_power)


lemma bernoulli_strict:
  "0 < (y::real) \<Longrightarrow> 1 + real (Suc (Suc k)) * y < (1 + y) ^ Suc (Suc k)"
proof (induction k)
  case 0
  then have "0 < y * y" by simp
  then show ?case by (simp add: power2_eq_square algebra_simps)
next
  case (Suc k)
  then have ih: "1 + real (Suc (Suc k)) * y < (1 + y) ^ Suc (Suc k)" by simp
  have "1 + real (Suc (Suc (Suc k))) * y \<le> (1 + real (Suc (Suc k)) * y) * (1 + y)"
    using Suc.prems by (simp add: algebra_simps)
  also have "\<dots> < (1 + y) ^ Suc (Suc k) * (1 + y)"
  proof (rule mult_strict_right_mono [OF ih])
    show "0 < 1 + y" using Suc.prems by simp
  qed
  also have "\<dots> = (1 + y) ^ Suc (Suc (Suc k))"
    by simp
  finally show ?case .
qed

section \<open>Reading the table\<close>

lemma nth_map_upt0: "m \<le> k \<Longrightarrow> map f [0..<Suc k] ! m = f m"
proof -
  assume "m \<le> k"
  then have "m < length [0..<Suc k]" by simp
  then have "map f [0..<Suc k] ! m = f ([0..<Suc k] ! m)" by (rule nth_map)
  also have "[0..<Suc k] ! m = m" using \<open>m \<le> k\<close> nth_upt [of 0 m "Suc k"] by simp
  finally show ?thesis .
qed

lemma projecao_length:
  assumes "0 \<le> n"
  shows "length (Mes (projecao v a r c n)) = nat n + 1"
    and "length (Saldo_acumulado (projecao v a r c n)) = nat n + 1"
    and "length (Total_aportado (projecao v a r c n)) = nat n + 1"
    and "length (Ganhos (projecao v a r c n)) = nat n + 1"
    and "length (Saldo_CDI (projecao v a r c n)) = nat n + 1"
  by (simp_all add: projecao_closed [OF assms])

lemma projecao_nth:
  assumes "0 \<le> n" "m \<le> nat n"
  shows "Mes (projecao v a r c n) ! m = int m"
    and "Saldo_acumulado (projecao v a r c n) ! m = acumulado v a r m"
    and "Total_aportado (projecao v a r c n) ! m = v + a * real m"
    and "Ganhos (projecao v a r c n) ! m = acumulado v a r m - (v + a * real m)"
    and "Saldo_CDI (projecao v a r c n) ! m = acumulado v a c m"
  by (simp_all only: projecao_closed [OF assms(1)] tabela.select_convs nth_map_upt0 [OF assms(2)])

lemma meses_valid: "1 \<le> anos \<Longrightarrow> 1 \<le> meses anos"
  by (simp add: meses_def)

section \<open>The projection\<close>







section \<open>The rate converter\<close>

text \<open>
  Claim C4. For a non-negative annual rate (in percent) the monthly rate is
  \<open>(1 + rate/100)\<close> to the power \<open>1/12\<close>, minus one: the twelfth root, so that twelve
  months of compounding give back the annual rate. It is not the annual rate divided by
  twelve (which is strictly larger for a positive rate), and an annual rate of zero
  gives a monthly rate of zero.
\<close>

theorem C4_rate_converter:
  assumes "0 \<le> taxa_anual"
  shows "\<exists>r. taxa_mensal taxa_anual = Some r \<and>
           r = (1 + taxa_anual / 100) powr (1 / 12) - 1 \<and>
           r = root 12 (1 + taxa_anual / 100) - 1 \<and>
           (1 + r) ^ 12 = 1 + taxa_anual / 100 \<and>
           (taxa_anual = 0 \<longrightarrow> r = 0) \<and>
           (0 < taxa_anual \<longrightarrow> r < taxa_anual / 100 / 12)"
proof -
  define r where "r = (1 + taxa_anual / 100) powr (1 / 12) - 1"
  from assms have b: "0 \<le> 1 + taxa_anual / 100" by simp
  have s: "taxa_mensal taxa_anual = Some r"
    unfolding r_def by (rule taxa_mensal_valid(1) [OF assms])
  have nonneg: "0 \<le> r"
    unfolding r_def by (rule taxa_mensal_valid(2) [OF assms])
  have rt: "r = root 12 (1 + taxa_anual / 100) - 1"
    unfolding r_def by (simp only: taxa_mensal_root [OF b])
  have pw: "(1 + r) ^ 12 = 1 + taxa_anual / 100"
    unfolding r_def by (rule taxa_mensal_compounds [OF b])
  have zero: "r = 0" if "taxa_anual = 0"
    using that by (simp add: r_def)
  have less: "r < taxa_anual / 100 / 12" if pos: "0 < taxa_anual"
  proof (rule ccontr)
    define y where "y = taxa_anual / 100 / 12"
    assume "\<not> r < taxa_anual / 100 / 12"
    then have le: "y \<le> r" by (simp add: y_def)
    from pos have y: "0 < y" by (simp add: y_def)
    have "1 + real (Suc (Suc 10)) * y < (1 + y) ^ Suc (Suc 10)"
      by (rule bernoulli_strict [OF y])
    then have "1 + 12 * y < (1 + y) ^ 12" by simp
    also have "(1 + y) ^ 12 \<le> (1 + r) ^ 12"
      using le y by (intro power_mono) simp_all
    finally have "1 + 12 * y < 1 + taxa_anual / 100" by (simp only: pw)
    then show False by (simp add: y_def)
  qed
  from s rt pw zero less show ?thesis unfolding r_def by blast
qed

theorem C4_rate_converter_witness:
  "taxa_mensal 0 = Some 0 \<and> taxa_mensal 409500 = Some 1"
proof -
  obtain r where r: "taxa_mensal 0 = Some r" and z: "(0::real) = 0 \<longrightarrow> r = 0"
    using C4_rate_converter [of 0] by auto
  obtain q where q: "taxa_mensal 409500 = Some q" and rt: "q = root 12 (1 + 409500 / 100) - 1"
    using C4_rate_converter [of 409500] by auto
  have "root 12 (2 ^ 12) = (2::real)"
    by (rule real_root_power_cancel) simp_all
  moreover have "(1::real) + 409500 / 100 = 2 ^ 12" by simp
  ultimately have "q = 1" using rt by simp
  with r z q show ?thesis by simp
qed

section \<open>The reverse calculator\<close>





section \<open>Inputs outside the widgets' bounds\<close>

text \<open>
  Claim C9, as the script has it. Lines 88--111 check nothing and know no
  invalid-parameter error: the lower bounds of the inputs are those of the sidebar
  widgets. Whatever the signs of the initial capital, the contribution and the horizon,
  and for annual rates down to \<open>-100\<close> percent, the calculation runs and returns a table
  of \<open>n + 1\<close> rows (none for a negative horizon) that starts at the initial capital as
  given.
\<close>

theorem C9_no_validation:
  assumes "- 100 \<le> taxa_anual" and "- 100 \<le> cdi_medio"
  shows "\<exists>t. calculo valor_inicial aporte_mensal taxa_anual cdi_medio n = Some t \<and>
           length (Saldo_acumulado t) = nat (n + 1) \<and>
           length (Mes t) = nat (n + 1) \<and>
           (0 \<le> n \<longrightarrow> Saldo_acumulado t ! 0 = valor_inicial)"
proof -
  from assms have b: "0 \<le> 1 + taxa_anual / 100" "0 \<le> 1 + cdi_medio / 100"
    by simp_all
  note c = calculo_Some [OF b, of valor_inicial aporte_mensal n]
  show ?thesis
  proof (cases "0 \<le> n")
    case True
    then have "nat (n + 1) = nat n + 1" by simp
    then show ?thesis
      unfolding c using True by (simp add: projecao_length [OF True] projecao_nth [OF True])
  next
    case False
    then have "n < 0" by simp
    then show ?thesis
      unfolding c by (simp add: projecao_negative)
  qed
qed

theorem C9_no_validation_witness:
  "\<exists>t. calculo (- 100) (- 5) (- 100) 0 (meses 1) = Some t \<and>
       length (Saldo_acumulado t) = 13 \<and> Saldo_acumulado t ! 0 = - 100"
proof -
  have n: "nat (meses 1 + 1) = 13" "0 \<le> meses 1" by (simp_all add: meses_def)
  from C9_no_validation [of "- 100" 0 "- 100" "- 5" "meses 1"] n
  show ?thesis by auto
qed

text \<open>A negative initial capital is not rejected: the table is computed from it.\<close>

theorem C9_no_validation_counterexample:
  "calculo (- 100) 0 0 0 (meses 1) =
     Some \<lparr>Mes = [0, 1, 2, 3, 4, 5, 6, 7, 8, 9, 10, 11, 12],
           Saldo_acumulado =
             [- 100, - 100, - 100, - 100, - 100, - 100, - 100, - 100, - 100, - 100,
              - 100, - 100, - 100],
           Total_aportado =
             [- 100, - 100, - 100, - 100, - 100, - 100, - 100, - 100, - 100, - 100,
              - 100, - 100, - 100],
           Ganhos = [0, 0, 0, 0, 0, 0, 0, 0, 0, 0, 0, 0, 0],
           Saldo_CDI =
             [- 100, - 100, - 100, - 100, - 100, - 100, - 100, - 100, - 100, - 100,
              - 100, - 100, - 100]\<rparr>"
  by (simp add: meses_def calculo_def taxa_mensal_def projecao_def inicio_def passo_def
      Let_def upto.simps)

section \<open>Rounding\<close>

lemma rne_of_int: "rne (of_int z) = z"
  by (simp add: rne_def)

lemma rne_floor: "\<lfloor>x\<rfloor> \<le> rne x" and rne_floor1: "rne x \<le> \<lfloor>x\<rfloor> + 1"
  by (simp_all add: rne_def Let_def)

lemma rne_ge: "of_int z \<le> x \<Longrightarrow> z \<le> rne x"
proof -
  assume "of_int z \<le> x"
  then have "z \<le> \<lfloor>x\<rfloor>" by (simp add: le_floor_iff)
  with rne_floor [of x] show ?thesis by simp
qed

lemma rne_le: "x \<le> of_int z \<Longrightarrow> rne x \<le> z"
proof (cases "x = of_int z")
  case True
  then show ?thesis by (simp add: rne_of_int)
next
  case False
  assume "x \<le> of_int z"
  with False have "x < of_int z" by simp
  then have "\<lfloor>x\<rfloor> < z" by (simp add: floor_less_iff)
  with rne_floor1 [of x] show ?thesis by simp
qed

lemma powr_powi_2: "(2::real) powr real_of_int k = 2 powi k"
  by (rule powr_real_of_int') simp_all

lemma expoente_bounds:
  assumes "x \<noteq> 0"
  shows "2 powi (expoente x) \<le> \<bar>x\<bar>" and "\<bar>x\<bar> < 2 powi (expoente x + 1)"
proof -
  from assms have pos: "0 < \<bar>x\<bar>" by simp
  have "2 powr (real_of_int (expoente x)) \<le> \<bar>x\<bar> \<and> \<bar>x\<bar> < 2 powr (real_of_int (expoente x) + 1)"
    using floor_log_eq_powr_iff [of "\<bar>x\<bar>" 2 "expoente x"] pos by (simp add: expoente_def)
  moreover have "(2::real) powr (real_of_int (expoente x) + 1) = 2 powi (expoente x + 1)"
    using powr_powi_2 [of "expoente x + 1"] by simp
  ultimately show "2 powi (expoente x) \<le> \<bar>x\<bar>" and "\<bar>x\<bar> < 2 powi (expoente x + 1)"
    by (simp_all add: powr_powi_2)
qed

lemma expoente_eq:
  assumes "2 powi e \<le> \<bar>x\<bar>" and "\<bar>x\<bar> < 2 powi (e + 1)"
  shows "expoente x = e"
proof -
  have "0 < (2::real) powi e" by simp
  with assms(1) have pos: "0 < \<bar>x\<bar>" by linarith
  have "\<lfloor>log 2 \<bar>x\<bar>\<rfloor> = e \<longleftrightarrow> 2 powr (real_of_int e) \<le> \<bar>x\<bar> \<and> \<bar>x\<bar> < 2 powr (real_of_int e + 1)"
    using floor_log_eq_powr_iff [of "\<bar>x\<bar>" 2 e] pos by simp
  moreover have "(2::real) powr (real_of_int e + 1) = 2 powi (e + 1)"
    using powr_powi_2 [of "e + 1"] by simp
  ultimately show ?thesis
    using assms by (simp add: expoente_def powr_powi_2)
qed

lemma arred_eval:
  assumes "2 powi e \<le> \<bar>x\<bar>" and "\<bar>x\<bar> < 2 powi (e + 1)"
  shows "arred x = of_int (rne (x / 2 powi (e - 52))) * 2 powi (e - 52)"
proof -
  have "0 < (2::real) powi e" by simp
  with assms(1) have "0 < \<bar>x\<bar>" by linarith
  then have "x \<noteq> 0" by simp
  then show ?thesis by (simp add: arred_def expoente_eq [OF assms])
qed

lemma arred_exact:
  assumes "x / 2 powi (expoente x - 52) = of_int z"
  shows "arred x = x"
proof (cases "x = 0")
  case True
  then show ?thesis by (simp add: arred_def)
next
  case False
  have nz: "(2::real) powi (expoente x - 52) \<noteq> 0" by simp
  from assms have "x = of_int z * 2 powi (expoente x - 52)"
    using nz by (simp add: field_simps)
  then show ?thesis using False assms by (simp add: arred_def rne_of_int)
qed

lemma powi_split: "(2::real) powi e = 2 ^ 52 * 2 powi (e - 52)"
proof -
  have "(2::real) powi (52 + (e - 52)) = 2 powi 52 * 2 powi (e - 52)"
    by (rule power_int_add) simp
  then show ?thesis by simp
qed

lemma powi_split1: "(2::real) powi (e + 1) = 2 ^ 53 * 2 powi (e - 52)"
proof -
  have "(2::real) powi (53 + (e - 52)) = 2 powi 53 * 2 powi (e - 52)"
    by (rule power_int_add) simp
  then show ?thesis by (simp add: add.commute)
qed

lemma arred_idem: "arred (arred x) = arred x"
proof (cases "x = 0")
  case True
  then show ?thesis by (simp add: arred_def)
next
  case False
  define e where "e = expoente x"
  define u :: real where "u = 2 powi (e - 52)"
  define q where "q = rne (x / u)"
  have u: "0 < u" by (simp add: u_def)
  have y: "arred x = of_int q * u"
    using False by (simp add: arred_def q_def u_def e_def)
  have lo: "2 ^ 52 * u \<le> \<bar>x\<bar>"
    using expoente_bounds(1) [OF False] powi_split [of e] by (simp add: u_def e_def)
  have hi: "\<bar>x\<bar> < 2 ^ 53 * u"
    using expoente_bounds(2) [OF False] powi_split1 [of e] by (simp add: u_def e_def)
  have ql: "2 ^ 52 \<le> \<bar>q\<bar>" and qh: "\<bar>q\<bar> \<le> 2 ^ 53"
  proof -
    show "2 ^ 52 \<le> \<bar>q\<bar>"
    proof (cases "0 \<le> x")
      case True
      with lo u have "of_int (2 ^ 52) \<le> x / u" by (simp add: field_simps)
      then have "2 ^ 52 \<le> q" unfolding q_def by (rule rne_ge)
      then show ?thesis by simp
    next
      case False
      with lo u have "x / u \<le> of_int (- (2 ^ 52))" by (simp add: field_simps)
      then have "q \<le> - (2 ^ 52)" unfolding q_def by (rule rne_le)
      then show ?thesis by simp
    qed
    show "\<bar>q\<bar> \<le> 2 ^ 53"
    proof (cases "0 \<le> x")
      case True
      with hi u have "x / u \<le> of_int (2 ^ 53)" by (simp add: field_simps)
      then have "q \<le> 2 ^ 53" unfolding q_def by (rule rne_le)
      moreover from True u have "of_int 0 \<le> x / u" by simp
      then have "0 \<le> q" unfolding q_def by (rule rne_ge)
      ultimately show ?thesis by simp
    next
      case False
      with hi u have "of_int (- (2 ^ 53)) \<le> x / u" by (simp add: field_simps)
      then have "- (2 ^ 53) \<le> q" unfolding q_def by (rule rne_ge)
      moreover from False u have "x / u \<le> of_int 0" by (simp add: field_simps)
      then have "q \<le> 0" unfolding q_def by (rule rne_le)
      ultimately show ?thesis by simp
    qed
  qed
  have ay: "\<bar>arred x\<bar> = of_int \<bar>q\<bar> * u"
    using u by (simp add: y abs_mult)
  show ?thesis
  proof (cases "\<bar>q\<bar> < 2 ^ 53")
    case True
    have "2 ^ 52 * u \<le> of_int \<bar>q\<bar> * u"
      using ql u by (simp add: mult_le_cancel_right)
    moreover have "of_int \<bar>q\<bar> * u < 2 ^ 53 * u"
      using True u by (simp add: mult_less_cancel_right)
    ultimately have "2 powi e \<le> \<bar>arred x\<bar>" and "\<bar>arred x\<bar> < 2 powi (e + 1)"
      unfolding ay powi_split [of e] powi_split1 [of e] u_def by simp_all
    then have ex: "expoente (arred x) = e" by (rule expoente_eq)
    have "arred x / 2 powi (expoente (arred x) - 52) = of_int q"
      unfolding ex using u by (simp add: y u_def)
    then show ?thesis by (rule arred_exact)
  next
    case False
    with qh have q53: "\<bar>q\<bar> = 2 ^ 53" by simp
    have "\<bar>arred x\<bar> = 2 ^ 53 * u" by (simp add: ay q53)
    then have eq: "\<bar>arred x\<bar> = 2 powi (e + 1)"
      by (simp add: powi_split1 [of e] u_def)
    have "2 powi (e + 1) \<le> \<bar>arred x\<bar>" and "\<bar>arred x\<bar> < 2 powi (e + 1 + 1)"
      unfolding eq by (simp_all add: power_int_add)
    then have ex: "expoente (arred x) = e + 1" by (rule expoente_eq)
    have u2: "(2::real) powi (e + 1 - 52) = 2 * u"
      using power_int_add [of "2::real" 1 "e - 52"] by (simp add: u_def add.commute)
    from q53 have "even q" by (cases "0 \<le> q") (simp_all, presburger+)
    then obtain h where h: "q = 2 * h" by (auto elim: evenE)
    have "arred x / 2 powi (expoente (arred x) - 52) = of_int h"
      unfolding ex u2 using u by (simp add: y h)
    then show ?thesis by (rule arred_exact)
  qed
qed

lemma arred_of_int:
  assumes "\<bar>z\<bar> < 2 ^ 53"
  shows "arred (of_int z) = of_int z"
proof (cases "z = 0")
  case True
  then show ?thesis by (simp add: arred_def)
next
  case False
  define e where "e = expoente (of_int z)"
  from False have nz: "(of_int z :: real) \<noteq> 0" by simp
  note b = expoente_bounds [OF nz, folded e_def]
  have "e \<le> 52"
  proof (rule ccontr)
    assume "\<not> e \<le> 52"
    then have "53 \<le> e" by simp
    then have "(2::real) powi 53 \<le> 2 powi e" by (intro power_int_increasing) simp_all
    with b(1) have "(2::real) ^ 53 \<le> \<bar>of_int z\<bar>" by simp
    then have "(2::int) ^ 53 \<le> \<bar>z\<bar>"
      by (metis of_int_abs of_int_le_iff of_int_numeral of_int_power)
    with assms show False by simp
  qed
  then have "(2::real) powi (e - 52) = 1 / 2 ^ nat (52 - e)"
    by (simp add: power_int_def field_simps)
  then have "of_int z / 2 powi (e - 52) = (of_int (z * 2 ^ nat (52 - e)) :: real)"
    by simp
  then show ?thesis unfolding e_def by (rule arred_exact)
qed


lemma arred_of_int_eq:
  assumes "x = of_int z" and "\<bar>z\<bar> < 2 ^ 53"
  shows "arred x = x"
  unfolding assms(1) by (rule arred_of_int [OF assms(2)])

lemma maior_double_ge: "2 ^ 53 \<le> maior_double"
proof -
  have "(1::real) \<le> 2 - 2 powi (- 52)" by (simp add: power_int_minus)
  moreover have "(2::real) ^ 53 \<le> 2 ^ 1023" by (rule power_increasing) simp_all
  ultimately have "1 * (2::real) ^ 53 \<le> (2 - 2 powi (- 52)) * 2 ^ 1023"
    by (intro mult_mono) simp_all
  then show ?thesis by (simp add: maior_double_def)
qed

lemma duplo_of_int:
  assumes "x = of_int z" and "\<bar>z\<bar> < 2 ^ 53"
  shows "duplo x"
proof -
  have a: "arred x = x" by (rule arred_of_int_eq [OF assms])
  from assms(2) have "\<bar>real_of_int z\<bar> \<le> 2 ^ 53"
    by (metis less_imp_le of_int_abs of_int_le_iff of_int_numeral of_int_power)
  with maior_double_ge have b: "\<bar>x\<bar> \<le> maior_double" unfolding assms(1) by linarith
  have "x / 2 powi (- 1074) = of_int (z * 2 ^ 1074)"
    unfolding assms(1) by (simp add: power_int_minus)
  then have c: "x / 2 powi (- 1074) = of_int \<lfloor>x / 2 powi (- 1074)\<rfloor>"
    by (simp only: floor_of_int)
  from a b c show ?thesis by (simp add: duplo_def)
qed

lemma arred_one: "arred 1 = 1"
  using arred_of_int_eq [of 1 1] by simp

lemma arred_tie_2_53: "arred (2 ^ 53 + 1) = 2 ^ 53"
proof -
  have "arred (2 ^ 53 + 1) = of_int (rne ((2 ^ 53 + 1) / 2 powi (53 - 52))) * 2 powi (53 - 52)"
    by (rule arred_eval) simp_all
  also have "\<dots> = 2 ^ 53"
    by (simp add: rne_def)
  finally show ?thesis .
qed

lemma arred_even_above_2_53:
  assumes "0 \<le> z" and "z < 2 ^ 52"
  shows "arred (2 ^ 53 + 2 * real_of_int z) = 2 ^ 53 + 2 * real_of_int z"
proof -
  have "(2 ^ 53 + 2 * real_of_int z) / 2 powi (expoente (2 ^ 53 + 2 * of_int z) - 52)
        = of_int (2 ^ 52 + z)"
  proof -
    have "(2::real) powi 53 \<le> \<bar>2 ^ 53 + 2 * of_int z\<bar>"
      using assms(1) by simp
    moreover have "real_of_int z < 2 ^ 52"
      using assms(2) by (metis of_int_less_iff of_int_numeral of_int_power)
    then have "\<bar>2 ^ 53 + 2 * real_of_int z\<bar> < 2 powi (53 + 1)"
      using assms(1) by simp
    ultimately have "expoente (2 ^ 53 + 2 * of_int z) = 53" by (rule expoente_eq)
    then show ?thesis by simp
  qed
  then show ?thesis by (rule arred_exact)
qed

section \<open>The rounded loop in closed form\<close>

lemma laco_f64_append:
  "laco_f64 v a r c n (xs @ ys) s = laco_f64 v a r c n ys (laco_f64 v a r c n xs s)"
  by (induction xs arbitrary: s) simp_all

lemma laco_f64_upto:
  "int k \<le> n \<Longrightarrow>
   laco_f64 v a r c n [0..int k] (inicio v) =
     \<lparr>saldos = map (acumulado_f64 v a r) [0..<Suc k],
      aportes = map (\<lambda>m. soma v (produto a (real m))) [0..<Suc k],
      ganhos = map (\<lambda>m. subtracao (acumulado_f64 v a r m) (soma v (produto a (real m))))
                 [0..<Suc k],
      cdi_ref = map (acumulado_f64 v a c) [0..<Suc k],
      saldo = acumulado_f64 v a r (if int k < n then Suc k else k),
      saldo_cdi = acumulado_f64 v a c (if int k < n then Suc k else k)\<rparr>"
proof (induction k)
  case 0
  then show ?case
    by (simp add: inicio_def passo_f64_def Let_def)
next
  case (Suc k)
  have split: "[0..int (Suc k)] = [0..int k] @ [int (Suc k)]"
    using upto_rec2 [of 0 "int (Suc k)"] by simp
  from Suc.prems have lt: "int k < n" and le: "int k \<le> n" by simp_all
  have cast: "real_of_int (int (Suc k)) = real (Suc k)" by simp
  show ?case
    unfolding split laco_f64_append Suc.IH [OF le]
    using lt by (simp add: passo_f64_def Let_def)
qed

lemma projecao_f64_nth:
  assumes "0 \<le> n" and "m \<le> nat n"
  shows "Saldo_acumulado (projecao_f64 v a r c n) ! m = acumulado_f64 v a r m"
    and "Total_aportado (projecao_f64 v a r c n) ! m = soma v (produto a (real m))"
    and "Ganhos (projecao_f64 v a r c n) ! m =
           subtracao (acumulado_f64 v a r m) (soma v (produto a (real m)))"
proof -
  from assms(1) have n: "n = int (nat n)" by simp
  have "laco_f64 v a r c n [0..n] (inicio v) = laco_f64 v a r c n [0..int (nat n)] (inicio v)"
    using n by simp
  also have "\<dots> =
     \<lparr>saldos = map (acumulado_f64 v a r) [0..<Suc (nat n)],
      aportes = map (\<lambda>m. soma v (produto a (real m))) [0..<Suc (nat n)],
      ganhos = map (\<lambda>m. subtracao (acumulado_f64 v a r m) (soma v (produto a (real m))))
                 [0..<Suc (nat n)],
      cdi_ref = map (acumulado_f64 v a c) [0..<Suc (nat n)],
      saldo = acumulado_f64 v a r (nat n),
      saldo_cdi = acumulado_f64 v a c (nat n)\<rparr>"
    using laco_f64_upto [of "nat n" n v a r c] assms(1) by simp
  finally have l: "laco_f64 v a r c n [0..n] (inicio v) =
     \<lparr>saldos = map (acumulado_f64 v a r) [0..<Suc (nat n)],
      aportes = map (\<lambda>m. soma v (produto a (real m))) [0..<Suc (nat n)],
      ganhos = map (\<lambda>m. subtracao (acumulado_f64 v a r m) (soma v (produto a (real m))))
                 [0..<Suc (nat n)],
      cdi_ref = map (acumulado_f64 v a c) [0..<Suc (nat n)],
      saldo = acumulado_f64 v a r (nat n),
      saldo_cdi = acumulado_f64 v a c (nat n)\<rparr>" .
  show "Saldo_acumulado (projecao_f64 v a r c n) ! m = acumulado_f64 v a r m"
    and "Total_aportado (projecao_f64 v a r c n) ! m = soma v (produto a (real m))"
    and "Ganhos (projecao_f64 v a r c n) ! m =
           subtracao (acumulado_f64 v a r m) (soma v (produto a (real m)))"
    by (simp_all only: projecao_f64_def Let_def l estado.select_convs tabela.select_convs
        nth_map_upt0 [OF assms(2)])
qed

lemma acumulado_f64_fixed:
  "arred v = v \<Longrightarrow> arred (acumulado_f64 v a r k) = acumulado_f64 v a r k"
  by (cases k) (simp_all add: soma_def arred_idem)

lemma acumulado_f64_zero_rate_step:
  assumes "arred v = v"
  shows "acumulado_f64 v a 0 (Suc k) = soma (acumulado_f64 v a 0 k) a"
  by (simp add: soma_def produto_def arred_one acumulado_f64_fixed [OF assms])

lemma acumulado_f64_exact:
  assumes "arred v = v" and "\<forall>k \<le> m. arred (v + a * real k) = v + a * real k"
  shows "acumulado_f64 v a 0 m = v + a * real m"
  using assms(2)
proof (induction m)
  case 0
  show ?case by simp
next
  case (Suc m)
  then have ih: "acumulado_f64 v a 0 m = v + a * real m" by simp
  from Suc.prems have e: "arred (v + a * real (Suc m)) = v + a * real (Suc m)" by blast
  have "acumulado_f64 v a 0 (Suc m) = arred (v + a * real m + a)"
    by (simp only: acumulado_f64_zero_rate_step [OF assms(1)] ih soma_def)
  also have "v + a * real m + a = v + a * real (Suc m)"
    by (simp add: algebra_simps)
  finally show ?case by (simp only: e)
qed

section \<open>The zero rate\<close>

text \<open>
  Claim C8, as the script has it. At a monthly rate of zero (what line 89 yields for
  an annual rate of zero) the balance starts at the initial capital and, while the sum
  stays within the range of double precision, each balance is the float sum of the
  previous balance and the monthly contribution. It equals the initial capital plus
  \<open>m\<close> times the contribution, and the total contributed of the same row, for every
  month \<open>m\<close> up to which the products and sums of that closed form are doubles, so
  that nothing is rounded; beyond that the two agree only up to rounding.
\<close>

theorem C8_zero_rate_running_sum:
  assumes "duplo valor_inicial" and "duplo aporte_mensal" and "1 \<le> n"
  shows "Saldo_acumulado (projecao_f64 valor_inicial aporte_mensal 0 cdi n) ! 0 = valor_inicial \<and>
         (\<forall>m < nat n.
            \<bar>Saldo_acumulado (projecao_f64 valor_inicial aporte_mensal 0 cdi n) ! m
               + aporte_mensal\<bar> \<le> maior_double \<longrightarrow>
            Saldo_acumulado (projecao_f64 valor_inicial aporte_mensal 0 cdi n) ! Suc m =
              soma (Saldo_acumulado (projecao_f64 valor_inicial aporte_mensal 0 cdi n) ! m)
                aporte_mensal) \<and>
         (\<forall>m \<le> nat n.
            (\<forall>k \<le> m. duplo (aporte_mensal * real k) \<and>
                      duplo (valor_inicial + aporte_mensal * real k)) \<longrightarrow>
            Saldo_acumulado (projecao_f64 valor_inicial aporte_mensal 0 cdi n) ! m =
              valor_inicial + aporte_mensal * real m \<and>
            Total_aportado (projecao_f64 valor_inicial aporte_mensal 0 cdi n) ! m =
              valor_inicial + aporte_mensal * real m)"
proof -
  from assms(1) have v: "arred valor_inicial = valor_inicial" by (simp add: duplo_def)
  from assms(3) have n: "0 \<le> n" by simp
  have first: "Saldo_acumulado (projecao_f64 valor_inicial aporte_mensal 0 cdi n) ! 0 = valor_inicial"
    by (simp add: projecao_f64_nth(1) [OF n])
  have step: "Saldo_acumulado (projecao_f64 valor_inicial aporte_mensal 0 cdi n) ! Suc m =
              soma (Saldo_acumulado (projecao_f64 valor_inicial aporte_mensal 0 cdi n) ! m)
                aporte_mensal"
    if "m < nat n" for m
  proof -
    from that have m: "m \<le> nat n" and sm: "Suc m \<le> nat n" by simp_all
    show ?thesis
      unfolding projecao_f64_nth(1) [OF n m] projecao_f64_nth(1) [OF n sm]
      by (rule acumulado_f64_zero_rate_step [OF v])
  qed
  have exact: "Saldo_acumulado (projecao_f64 valor_inicial aporte_mensal 0 cdi n) ! m =
              valor_inicial + aporte_mensal * real m \<and>
            Total_aportado (projecao_f64 valor_inicial aporte_mensal 0 cdi n) ! m =
              valor_inicial + aporte_mensal * real m"
    if m: "m \<le> nat n"
      and d: "\<forall>k \<le> m. duplo (aporte_mensal * real k) \<and>
                      duplo (valor_inicial + aporte_mensal * real k)" for m
  proof -
    from d have s: "\<forall>k \<le> m. arred (valor_inicial + aporte_mensal * real k) =
        valor_inicial + aporte_mensal * real k"
      by (simp add: duplo_def)
    from d have p: "arred (aporte_mensal * real m) = aporte_mensal * real m"
      by (simp add: duplo_def)
    from s have t: "arred (valor_inicial + aporte_mensal * real m) =
        valor_inicial + aporte_mensal * real m" by simp
    have "acumulado_f64 valor_inicial aporte_mensal 0 m = valor_inicial + aporte_mensal * real m"
      by (rule acumulado_f64_exact [OF v s])
    moreover have "soma valor_inicial (produto aporte_mensal (real m)) =
        valor_inicial + aporte_mensal * real m"
      by (simp add: soma_def produto_def p t)
    ultimately show ?thesis
      by (simp only: projecao_f64_nth(1,2) [OF n m])
  qed
  from first step exact show ?thesis by blast
qed

theorem C8_zero_rate_running_sum_witness:
  "duplo 1000 \<and> duplo 100 \<and>
   Saldo_acumulado (projecao_f64 1000 100 0 0 (meses 1)) ! 0 = 1000 \<and>
   Saldo_acumulado (projecao_f64 1000 100 0 0 (meses 1)) ! 12 = 2200 \<and>
   Total_aportado (projecao_f64 1000 100 0 0 (meses 1)) ! 12 = 2200"
proof -
  have d: "duplo 1000" by (rule duplo_of_int [of _ 1000]) simp_all
  have c: "duplo 100" by (rule duplo_of_int [of _ 100]) simp_all
  have n: "1 \<le> meses 1" by (simp add: meses_def)
  have m: "(12::nat) \<le> nat (meses 1)" by (simp add: meses_def)
  have h: "\<forall>k \<le> 12. duplo (100 * real k) \<and> duplo (1000 + 100 * real k)"
  proof (intro allI impI conjI)
    fix k :: nat
    assume "k \<le> 12"
    then have b: "\<bar>100 * int k\<bar> < 2 ^ 53" "\<bar>1000 + 100 * int k\<bar> < 2 ^ 53" by simp_all
    show "duplo (100 * real k)"
      by (rule duplo_of_int [OF _ b(1)]) simp
    show "duplo (1000 + 100 * real k)"
      by (rule duplo_of_int [OF _ b(2)]) simp
  qed
  from C8_zero_rate_running_sum [OF d c n, of 0] m h
  have "Saldo_acumulado (projecao_f64 1000 100 0 0 (meses 1)) ! 0 = 1000"
    and "Saldo_acumulado (projecao_f64 1000 100 0 0 (meses 1)) ! 12 = 1000 + 100 * real 12"
    and "Total_aportado (projecao_f64 1000 100 0 0 (meses 1)) ! 12 = 1000 + 100 * real 12"
    by blast+
  with d c show ?thesis by simp
qed

lemma acumulado_f64_stuck: "acumulado_f64 (2 ^ 53) 1 0 k = 2 ^ 53"
proof (induction k)
  case 0
  show ?case by simp
next
  case (Suc k)
  have v: "arred (2 ^ 53) = 2 ^ 53"
    using arred_even_above_2_53 [of 0] by simp
  have "acumulado_f64 (2 ^ 53) 1 0 (Suc k) = soma (acumulado_f64 (2 ^ 53) 1 0 k) 1"
    by (rule acumulado_f64_zero_rate_step [OF v])
  also have "\<dots> = arred (2 ^ 53 + 1)" by (simp only: Suc.IH soma_def)
  finally show ?case by (simp only: arred_tie_2_53)
qed

text \<open>
  An initial capital of \<open>2\<^sup>5\<^sup>3\<close> with a monthly contribution of one, at rate zero over one
  year: every sum \<open>2\<^sup>5\<^sup>3 + 1\<close> is a tie and rounds back to \<open>2\<^sup>5\<^sup>3\<close>, so the balance never
  moves, while the total contributed reaches \<open>2\<^sup>5\<^sup>3 + 12\<close> and the gain shown is \<open>-12\<close>.
\<close>

theorem C8_zero_rate_running_sum_counterexample:
  "duplo (2 ^ 53) \<and> duplo 1 \<and>
   Saldo_acumulado (projecao_f64 (2 ^ 53) 1 0 0 (meses 1)) ! 12 = 2 ^ 53 \<and>
   Saldo_acumulado (projecao_f64 (2 ^ 53) 1 0 0 (meses 1)) ! 12 \<noteq> 2 ^ 53 + 1 * 12 \<and>
   Total_aportado (projecao_f64 (2 ^ 53) 1 0 0 (meses 1)) ! 12 = 2 ^ 53 + 12 \<and>
   Ganhos (projecao_f64 (2 ^ 53) 1 0 0 (meses 1)) ! 12 = - 12"
proof -
  have v: "arred (2 ^ 53) = 2 ^ 53"
    using arred_even_above_2_53 [of 0] by simp
  have "(2::real) ^ 53 / 2 powi (- 1074) = of_int (2 ^ 53 * 2 ^ 1074)"
    by (simp add: power_int_minus)
  then have "(2::real) ^ 53 / 2 powi (- 1074) = of_int \<lfloor>(2::real) ^ 53 / 2 powi (- 1074)\<rfloor>"
    by (simp only: floor_of_int)
  with v maior_double_ge have d1: "duplo (2 ^ 53)" by (simp add: duplo_def)
  have d2: "duplo 1" by (rule duplo_of_int [of _ 1]) simp_all
  have n: "0 \<le> meses 1" and m: "(12::nat) \<le> nat (meses 1)" by (simp_all add: meses_def)
  have twelve: "arred 12 = 12" by (rule arred_of_int_eq [of _ 12]) simp_all
  have total: "arred 9007199254741004 = 9007199254741004"
    using arred_even_above_2_53 [of 6] by simp
  have minus: "arred (- 12) = - 12" by (rule arred_of_int_eq [of _ "- 12"]) simp_all
  have s: "Saldo_acumulado (projecao_f64 (2 ^ 53) 1 0 0 (meses 1)) ! 12 = 2 ^ 53"
    by (simp only: projecao_f64_nth(1) [OF n m] acumulado_f64_stuck)
  have t: "Total_aportado (projecao_f64 (2 ^ 53) 1 0 0 (meses 1)) ! 12 = 2 ^ 53 + 12"
    unfolding projecao_f64_nth(2) [OF n m] by (simp add: soma_def produto_def twelve total)
  have g: "Ganhos (projecao_f64 (2 ^ 53) 1 0 0 (meses 1)) ! 12 = - 12"
    unfolding projecao_f64_nth(3) [OF n m] acumulado_f64_stuck
    by (simp add: soma_def produto_def subtracao_def twelve total minus)
  from d1 d2 s t g show ?thesis by simp
qed

section \<open>The reverse calculator within the range of double precision\<close>

lemma potencia_positive_rate:
  assumes "0 < i" and "1 \<le> n"
  shows "potencia (1 + i) n =
           (if maior_double < (1 + i) ^ nat n then Inl OverflowError
            else Inr ((1 + i) ^ nat n))"
proof -
  from assms(2) have n: "n = int (nat n)" by simp
  have pw: "(1 + i) powi n = (1 + i) ^ nat n"
    using n power_int_of_nat [of "1 + i" "nat n"] by simp
  have "0 \<le> (1 + i) ^ nat n" using assms(1) by simp
  then have "\<bar>(1 + i) ^ nat n\<bar> = (1 + i) ^ nat n" by simp
  then show ?thesis using assms(1) by (simp add: potencia_def pw)
qed

text \<open>
  Claim C2, as the script has it. For a monthly rate \<open>i \<ge> 0\<close> and a horizon \<open>n \<ge> 1\<close>:
  at \<open>i = 0\<close> the contribution is \<open>(FV - P)/n\<close>; at \<open>i > 0\<close>, while \<open>(1+i)^n\<close> is within
  the range of double precision, it is \<open>(FV - P*(1+i)^n) / (((1+i)^n - 1)/i)\<close>; when
  \<open>(1+i)^n\<close> is beyond that range the power of line 154 raises \<open>OverflowError\<close> and no
  contribution is computed. A division by zero is raised in none of these cases.
\<close>

theorem C2_reverse_formula_in_range:
  assumes "0 \<le> i" and "1 \<le> n"
  shows "(i = 0 \<longrightarrow> PMT_py FV P i n = Inr ((FV - P) / real_of_int n)) \<and>
         (0 < i \<and> (1 + i) ^ nat n \<le> maior_double \<longrightarrow>
            PMT_py FV P i n =
              Inr ((FV - P * (1 + i) ^ nat n) / (((1 + i) ^ nat n - 1) / i))) \<and>
         (0 < i \<and> maior_double < (1 + i) ^ nat n \<longrightarrow>
            PMT_py FV P i n = Inl OverflowError) \<and>
         PMT_py FV P i n \<noteq> Inl ZeroDivisionError"
proof (cases "0 < i")
  case True
  note p = potencia_positive_rate [OF True assms(2)]
  from assms(2) have k: "0 < nat n" by simp
  have "1 < (1 + i) ^ nat n" using True k by (rule power_gt_one)
  then have d: "((1 + i) ^ nat n - 1) / i \<noteq> 0" using True by simp
  show ?thesis
  proof (cases "maior_double < (1 + i) ^ nat n")
    case over: True
    then have "PMT_py FV P i n = Inl OverflowError"
      using True by (simp add: PMT_py_def p)
    with True over show ?thesis by simp
  next
    case False
    then have "PMT_py FV P i n =
        Inr ((FV - P * (1 + i) ^ nat n) / (((1 + i) ^ nat n - 1) / i))"
      using True d by (simp add: PMT_py_def p)
    with True False show ?thesis by simp
  qed
next
  case False
  with assms(1) have z: "i = 0" by simp
  from assms(2) have "n \<noteq> 0" by simp
  then have "PMT_py FV P i n = Inr ((FV - P) / real_of_int n)"
    using z by (simp add: PMT_py_def)
  with z show ?thesis by simp
qed

theorem C2_reverse_formula_in_range_witness:
  "PMT_py 2200 1000 0 (meses 1) = Inr 100 \<and> PMT_py 2200 1000 1 2 = Inr (- 600) \<and>
   PMT_py 2200 1000 1 2 \<noteq> Inl ZeroDivisionError \<and>
   PMT_py 2200 1000 3 (meses 50) = Inl OverflowError"
proof -
  have n: "1 \<le> meses 1" by (simp add: meses_def)
  have r: "(1 + 1) ^ nat 2 \<le> maior_double"
    using maior_double_ge by simp
  have "maior_double < 2 * 2 ^ 1023"
    by (simp add: maior_double_def power_int_minus)
  also have "\<dots> = (2::real) ^ 1024" by simp
  also have "\<dots> \<le> 2 ^ 1200" by (rule power_increasing) simp_all
  also have "\<dots> = (4::real) ^ 600"
    using power_mult [of "2::real" 2 600] by simp
  finally have o: "maior_double < (1 + 3) ^ nat (meses 50)" by (simp add: meses_def)
  have n50: "1 \<le> meses 50" by (simp add: meses_def)
  have "PMT_py 2200 1000 0 (meses 1) = Inr 100"
    using C2_reverse_formula_in_range [of 0 "meses 1" 2200 1000, OF _ n] by (simp add: meses_def)
  moreover have "PMT_py 2200 1000 1 2 = Inr (- 600) \<and> PMT_py 2200 1000 1 2 \<noteq> Inl ZeroDivisionError"
    using C2_reverse_formula_in_range [of 1 2 2200 1000] r by simp
  moreover have "PMT_py 2200 1000 3 (meses 50) = Inl OverflowError"
  proof -
    have p: "(0::real) \<le> 3" "(0::real) < 3" by simp_all
    from C2_reverse_formula_in_range [of 3 "meses 50" 2200 1000, OF p(1) n50] p(2) o
    show ?thesis by blast
  qed
  ultimately show ?thesis by blast
qed

text \<open>
  An annual rate of 1677721500 percent gives the monthly rate 3; over the fifty years
  of the slider's maximum, \<open>4 ** 600\<close> is beyond the largest double and line 154 raises.
\<close>

theorem C2_reverse_formula_counterexample:
  "taxa_mensal 1677721500 = Some 3 \<and> PMT_py 1000 0 3 (meses 50) = Inl OverflowError"
proof -
  have "root 12 (4 ^ 12) = (4::real)"
    by (rule real_root_power_cancel) simp_all
  moreover have "(1::real) + 1677721500 / 100 = 4 ^ 12" by simp
  ultimately have "(1 + 1677721500 / 100) powr (1 / 12) = (4::real)"
    using taxa_mensal_root [of 1677721500] by simp
  then have t: "taxa_mensal 1677721500 = Some 3"
    using taxa_mensal_valid(1) [of 1677721500] by simp
  have "maior_double < 2 * 2 ^ 1023"
    by (simp add: maior_double_def power_int_minus)
  also have "\<dots> = (2::real) ^ 1024" by simp
  also have "\<dots> \<le> 2 ^ 1200" by (rule power_increasing) simp_all
  also have "\<dots> = (4::real) ^ 600"
    using power_mult [of "2::real" 2 600] by simp
  finally have o: "maior_double < (1 + 3) ^ nat (meses 50)" by (simp add: meses_def)
  have n: "1 \<le> meses 50" by (simp add: meses_def)
  have "PMT_py 1000 0 3 (meses 50) = Inl OverflowError"
    using potencia_positive_rate [of 3 "meses 50", OF _ n] o by (simp add: PMT_py_def)
  with t show ?thesis by simp
qed

end
